theory Spec2Isabelle
  imports Main "HOL-Library.Word"
begin

unbundle bit_operations_syntax

section \<open>Go values used by package decrypt\<close>

text \<open>
  A Go \<open>string\<close> and a \<open>[]byte\<close> are sequences of bytes, a \<open>rune\<close> is a 32-bit code
  point, \<open>uintptr\<close>, \<open>syscall.Handle\<close> and \<open>syscall.Errno\<close> are machine words
  (64 bits on windows/amd64), \<open>int\<close> lengths and loop counters are natural numbers
  (they stay far below \<open>2 ^ 63\<close>).
\<close>

type_synonym byte = "8 word"
type_synonym rune = "32 word"
type_synonym uint32 = "32 word"
type_synonym uint64 = "64 word"
type_synonym uintptr = "64 word"
type_synonym gostring = "byte list"

text \<open>A string literal of the theory as a Go string.\<close>

definition str :: "string \<Rightarrow> gostring" where
  "str s = map of_char s"

text \<open>Run-time panics of the Go code: an index or a slice expression out of range.\<close>

datatype panic =
    IndexOutOfRange nat nat
  | SliceBoundsOutOfRange nat nat

text \<open>\<open>xs[i]\<close> (also \<open>&xs[i]\<close>) and \<open>xs[lo:hi]\<close> on a slice whose capacity is its length.\<close>

definition go_index :: "'a list \<Rightarrow> nat \<Rightarrow> panic + 'a" where
  "go_index xs i = (if i < length xs then Inr (xs ! i) else Inl (IndexOutOfRange i (length xs)))"

definition go_slice :: "'a list \<Rightarrow> nat \<Rightarrow> nat \<Rightarrow> panic + 'a list" where
  "go_slice xs lo hi =
     (if hi \<le> length xs \<and> lo \<le> hi then Inr (take (hi - lo) (drop lo xs))
      else Inl (SliceBoundsOutOfRange hi (length xs)))"

section \<open>The conversions \<open>[]rune(s)\<close> and \<open>string(r)\<close>\<close>

text \<open>
  \<open>[]rune(s)\<close> decodes the bytes of \<open>s\<close> as UTF-8, one rune per encoded code point and
  \<open>U+FFFD\<close> (width 1) for every byte that starts no valid encoding. \<open>decoderune\<close> is the
  step for a leading byte \<open>\<ge> 0x80\<close>: it returns the rune and the number of bytes used.
\<close>

definition locb_hicb :: "byte \<Rightarrow> bool" where
  "locb_hicb b = (0x80 \<le> b \<and> b \<le> 0xBF)"

definition runeError :: rune where
  "runeError = 0xFFFD"

definition rune_of :: "byte \<Rightarrow> rune" where
  "rune_of b = ucast b"

fun decoderune :: "byte list \<Rightarrow> rune \<times> nat" where
  "decoderune (b0 # b1 # b2 # b3 # s) =
     (if 0xC0 \<le> b0 \<and> b0 < 0xE0 then
        (let r = push_bit 6 (rune_of (b0 AND 0x1F)) OR rune_of (b1 AND 0x3F)
         in if locb_hicb b1 \<and> 0x7F < r then (r, 2) else (runeError, 1))
      else if 0xE0 \<le> b0 \<and> b0 < 0xF0 then
        (let r = push_bit 12 (rune_of (b0 AND 0x0F)) OR push_bit 6 (rune_of (b1 AND 0x3F))
                   OR rune_of (b2 AND 0x3F)
         in if locb_hicb b1 \<and> locb_hicb b2 \<and> 0x7FF < r \<and> \<not> (0xD800 \<le> r \<and> r \<le> 0xDFFF)
            then (r, 3) else (runeError, 1))
      else if 0xF0 \<le> b0 \<and> b0 < 0xF8 then
        (let r = push_bit 18 (rune_of (b0 AND 0x07)) OR push_bit 12 (rune_of (b1 AND 0x3F))
                   OR push_bit 6 (rune_of (b2 AND 0x3F)) OR rune_of (b3 AND 0x3F)
         in if locb_hicb b1 \<and> locb_hicb b2 \<and> locb_hicb b3 \<and> 0xFFFF < r \<and> r \<le> 0x10FFFF
            then (r, 4) else (runeError, 1))
      else (runeError, 1))"
| "decoderune [b0, b1, b2] =
     (if 0xC0 \<le> b0 \<and> b0 < 0xE0 then
        (let r = push_bit 6 (rune_of (b0 AND 0x1F)) OR rune_of (b1 AND 0x3F)
         in if locb_hicb b1 \<and> 0x7F < r then (r, 2) else (runeError, 1))
      else if 0xE0 \<le> b0 \<and> b0 < 0xF0 then
        (let r = push_bit 12 (rune_of (b0 AND 0x0F)) OR push_bit 6 (rune_of (b1 AND 0x3F))
                   OR rune_of (b2 AND 0x3F)
         in if locb_hicb b1 \<and> locb_hicb b2 \<and> 0x7FF < r \<and> \<not> (0xD800 \<le> r \<and> r \<le> 0xDFFF)
            then (r, 3) else (runeError, 1))
      else (runeError, 1))"
| "decoderune [b0, b1] =
     (if 0xC0 \<le> b0 \<and> b0 < 0xE0 then
        (let r = push_bit 6 (rune_of (b0 AND 0x1F)) OR rune_of (b1 AND 0x3F)
         in if locb_hicb b1 \<and> 0x7F < r then (r, 2) else (runeError, 1))
      else (runeError, 1))"
| "decoderune s = (runeError, 1)"

fun stringtoslicerune :: "gostring \<Rightarrow> rune list" where
  "stringtoslicerune [] = []"
| "stringtoslicerune (c # s) =
     (if c < 0x80 then rune_of c # stringtoslicerune s
      else (case decoderune (c # s) of (r, w) \<Rightarrow> r # stringtoslicerune (drop (w - 1) s)))"

text \<open>
  \<open>string(r)\<close> for a rune slice appends the UTF-8 encoding of every rune; a surrogate or a
  value above \<open>U+10FFFF\<close> (a negative \<open>int32\<close> included, read as \<open>uint32\<close>) is encoded
  as \<open>U+FFFD\<close>.
\<close>

definition encoderune :: "rune \<Rightarrow> byte list" where
  "encoderune r =
     (if r \<le> 0x7F then [ucast r]
      else if r \<le> 0x7FF then [0xC0 OR ucast (drop_bit 6 r), 0x80 OR (ucast r AND 0x3F)]
      else if 0x10FFFF < r \<or> (0xD800 \<le> r \<and> r \<le> 0xDFFF) then [0xEF, 0xBF, 0xBD]
      else if r \<le> 0xFFFF then
        [0xE0 OR ucast (drop_bit 12 r), 0x80 OR (ucast (drop_bit 6 r) AND 0x3F),
         0x80 OR (ucast r AND 0x3F)]
      else
        [0xF0 OR ucast (drop_bit 18 r), 0x80 OR (ucast (drop_bit 12 r) AND 0x3F),
         0x80 OR (ucast (drop_bit 6 r) AND 0x3F), 0x80 OR (ucast r AND 0x3F)])"

definition slicerunetostring :: "rune list \<Rightarrow> gostring" where
  "slicerunetostring rs = concat (map encoderune rs)"

section \<open>\<open>strconv.ParseUint(s, 16, 16)\<close>\<close>

text \<open>
  The call of the source fixes base 16 and bit size 16, so the branches of
  \<open>ParseUint\<close> for base 0 (prefixes and underscores) are not taken: the cutoff is
  \<open>maxUint64 / 16 + 1\<close> and the largest value \<open>1 << 16 - 1\<close>. The digits are read from
  the bytes of the string; \<open>lower\<close> is \<open>c | ('x' - 'X')\<close>.
\<close>

datatype NumError = ErrSyntax | ErrRange

definition lower :: "byte \<Rightarrow> byte" where
  "lower c = c OR 0x20"

definition digit :: "byte \<Rightarrow> byte option" where
  "digit c =
     (if 0x30 \<le> c \<and> c \<le> 0x39 then Some (c - 0x30)
      else if 0x61 \<le> lower c \<and> lower c \<le> 0x7A then Some (lower c - 0x61 + 10)
      else None)"

definition cutoff :: uint64 where
  "cutoff = 0xFFFFFFFFFFFFFFFF div 16 + 1"

definition maxVal :: uint64 where
  "maxVal = push_bit 16 1 - 1"

fun ParseUint_digits :: "uint64 \<Rightarrow> byte list \<Rightarrow> uint64 \<times> NumError option" where
  "ParseUint_digits n [] = (n, None)"
| "ParseUint_digits n (c # cs) =
     (case digit c of
        None \<Rightarrow> (0, Some ErrSyntax)
      | Some d \<Rightarrow>
          if d \<ge> 16 then (0, Some ErrSyntax)
          else if n \<ge> cutoff then (maxVal, Some ErrRange)
          else (let n' = n * 16; n1 = n' + ucast d
                in if n1 < n' \<or> n1 > maxVal then (maxVal, Some ErrRange)
                   else ParseUint_digits n1 cs))"

definition ParseUint_16_16 :: "gostring \<Rightarrow> uint64 \<times> NumError option" where
  "ParseUint_16_16 s = (if s = [] then (0, Some ErrSyntax) else ParseUint_digits 0 s)"

section \<open>The thumbprint codec\<close>

text \<open>The errors the package returns (the last one carries the error of \<open>json.Unmarshal\<close>).\<close>

datatype syserr = Errno uintptr | OtherError string

datatype 'j error =
    CannotOpenStore syserr
  | ErrMustRunAsAdmin
  | InvalidThumbprint
  | CouldNotEnumerate syserr
  | ErrCertWithThumbprintNotFound
  | ErrInvalidProtectedSettingsData
  | CouldNotDecrypt uintptr
  | CouldNotHash uintptr
  | UnmarshalError 'j

text \<open>
  The loop of \<open>thumbprintStringToHex\<close>: \<open>parts[count]\<close> is written only when the pair
  \<open>runes[count*2 : count*2+2]\<close> parses; \<open>byte(bp)\<close> keeps the low 8 bits.
\<close>

function hex_loop :: "rune list \<Rightarrow> nat \<Rightarrow> nat \<Rightarrow> byte list \<Rightarrow> panic + byte list" where
  "hex_loop runes len count parts =
     (if count < len then
        (case go_slice runes (count * 2) (count * 2 + 2) of
           Inl p \<Rightarrow> Inl p
         | Inr r \<Rightarrow>
             (case ParseUint_16_16 (slicerunetostring r) of
                (bp, None) \<Rightarrow>
                  (if count < length parts
                   then hex_loop runes len (count + 1) (parts[count := ucast bp])
                   else Inl (IndexOutOfRange count (length parts)))
              | (bp, Some err) \<Rightarrow> hex_loop runes len (count + 1) parts))
      else Inr parts)"
  by pat_completeness auto
termination
  by (relation "measure (\<lambda>(runes, len, count, parts). len - count)") auto

definition thumbprintStringToHex :: "gostring \<Rightarrow> panic + (byte list \<times> 'j error option)" where
  "thumbprintStringToHex s =
     (let runes = stringtoslicerune s
      in case (if length runes mod 2 = 1
               then go_slice (stringtoslicerune s) 1 (length (stringtoslicerune s))
               else Inr runes) of
           Inl p \<Rightarrow> Inl p
         | Inr runes \<Rightarrow>
             (let len = length runes div 2;
                  parts = replicate len 0
              in case hex_loop runes len 0 parts of
                   Inl p \<Rightarrow> Inl p
                 | Inr parts \<Rightarrow> Inr (parts, None)))"

section \<open>The native capabilities\<close>

text \<open>
  The certificate store, crypt32.dll and \<open>json.Unmarshal\<close> are outside the package:
  they are parameters of the model. A native call made through \<open>syscall.Syscall6\<close>
  returns its result word \<open>raw\<close> and the error number \<open>lastErr\<close>, and stores through its
  output pointers: \<open>mem\<close> are the bytes stored through the buffer pointer, \<open>cb\<close> is
  the value of the size word after the call. A nil pointer is \<open>None\<close>. The type \<open>'c\<close>
  is what a \<open>*syscall.CertContext\<close> points to, \<open>'m\<close> the decoded
  \<open>map[string]interface{}\<close> and \<open>'j\<close> the errors of \<open>json.Unmarshal\<close>. Loading
  crypt32.dll and finding its two procedures is taken to succeed.
\<close>

record syscall_result =
  raw :: uintptr
  lastErr :: uintptr
  mem :: "byte list"
  cb :: uint32

record cryptDecryptMessagePara =
  cbSize :: uint32
  dwMsgAndCertEncodingType :: uint32
  cCertStore :: uint32
  rghCertStore :: uintptr
  dwFlags :: uint32

record ('c, 'm, 'j) crypt32 =
  CertOpenStore :: "uintptr \<Rightarrow> uint32 \<Rightarrow> uintptr \<Rightarrow> uint32 \<Rightarrow> string \<Rightarrow> uintptr \<times> syserr option"
  CertEnumCertificatesInStore :: "uintptr \<Rightarrow> 'c option \<Rightarrow> 'c option \<times> syserr option"
  CertGetCertificateContextProperty ::
    "'c option \<Rightarrow> uint32 \<Rightarrow> byte list option \<Rightarrow> uint32 \<Rightarrow> syscall_result"
  CryptDecryptMessage ::
    "cryptDecryptMessagePara \<Rightarrow> byte list \<Rightarrow> uintptr \<Rightarrow> byte list option \<Rightarrow> uint32
       \<Rightarrow> syscall_result"
  json_Unmarshal :: "byte list option \<Rightarrow> 'm option \<times> 'j option"

definition certHashPropID :: uint32 where
  "certHashPropID = 3"

definition crypteEAsn1BadTag :: uintptr where
  "crypteEAsn1BadTag = 2148086027"

definition crypteENotFound :: uintptr where
  "crypteENotFound = 0x80092004"

definition CERT_STORE_PROV_SYSTEM :: uintptr where
  "CERT_STORE_PROV_SYSTEM = 10"

definition CERT_SYSTEM_STORE_LOCAL_MACHINE :: uint32 where
  "CERT_SYSTEM_STORE_LOCAL_MACHINE = 0x20000"

definition X509_ASN_ENCODING :: uint32 where
  "X509_ASN_ENCODING = 1"

definition PKCS_7_ASN_ENCODING :: uint32 where
  "PKCS_7_ASN_ENCODING = 0x10000"

text \<open>The buffer of a two-phase call after the native code has stored \<open>w\<close> into it.\<close>

definition stored :: "byte list \<Rightarrow> byte list \<Rightarrow> byte list" where
  "stored buf w = take (length buf) w @ drop (length w) buf"

section \<open>\<open>decryptDataWithCert\<close> and \<open>getCertificateThumbprint\<close>\<close>

text \<open>
  A result \<open>([]byte, error)\<close> is a pair of options: \<open>None\<close> is the nil slice and the
  nil error. \<open>&decoded[0]\<close> is an index expression and panics on an empty slice.
\<close>

definition decryptDataWithCert ::
  "('c, 'm, 'j) crypt32 \<Rightarrow> byte list \<Rightarrow> 'c option \<Rightarrow> uintptr
     \<Rightarrow> panic + (byte list option \<times> 'j error option)" where
  "decryptDataWithCert env decoded cert storeHandle =
     (let para = \<lparr>cbSize = of_nat (length decoded),
                  dwMsgAndCertEncodingType = X509_ASN_ENCODING OR PKCS_7_ASN_ENCODING,
                  cCertStore = 1,
                  rghCertStore = storeHandle,
                  dwFlags = 0\<rparr>;
          cbDecryptedBlob = 0
      in case go_index decoded 0 of
           Inl p \<Rightarrow> Inl p
         | Inr pbEncryptedBlob \<Rightarrow>
             (let res = CryptDecryptMessage env para decoded (of_nat (length decoded)) None
                          cbDecryptedBlob
              in if raw res = 0 then
                   (if lastErr res = crypteEAsn1BadTag
                    then Inr (None, Some ErrInvalidProtectedSettingsData)
                    else Inr (None, Some (CouldNotDecrypt (lastErr res))))
                 else
                   (let cbDecryptedBlob = cb res
                    in if cbDecryptedBlob = 0 then Inr (None, None)
                       else
                         (let decryptedBytes = replicate (unat cbDecryptedBlob) 0
                          in case go_index decryptedBytes 0 of
                               Inl p \<Rightarrow> Inl p
                             | Inr pdecryptedBytes \<Rightarrow>
                                 (let res = CryptDecryptMessage env para decoded
                                              (of_nat (length decoded)) (Some decryptedBytes)
                                              cbDecryptedBlob;
                                      decryptedBytes = stored decryptedBytes (mem res);
                                      cbDecryptedBlob = cb res
                                  in if raw res = 0
                                     then Inr (None, Some (CouldNotDecrypt (lastErr res)))
                                     else (case go_slice decryptedBytes 0 (unat cbDecryptedBlob) of
                                             Inl p \<Rightarrow> Inl p
                                           | Inr returnedBytes \<Rightarrow>
                                               Inr (Some returnedBytes, None)))))))"

definition getCertificateThumbprint ::
  "('c, 'm, 'j) crypt32 \<Rightarrow> 'c option \<Rightarrow> panic + (byte list option \<times> 'j error option)" where
  "getCertificateThumbprint env cert =
     (let cbComputedHash = 0;
          res = CertGetCertificateContextProperty env cert certHashPropID None cbComputedHash
      in if raw res = 0 then Inr (None, Some (CouldNotHash (lastErr res)))
         else
           (let cbComputedHash = cb res
            in if cbComputedHash = 0 then Inr (None, None)
               else
                 (let computedHashBuffer = replicate (unat cbComputedHash) 0
                  in case go_index computedHashBuffer 0 of
                       Inl p \<Rightarrow> Inl p
                     | Inr pComputedHash \<Rightarrow>
                         (let res = CertGetCertificateContextProperty env cert certHashPropID
                                      (Some computedHashBuffer) cbComputedHash;
                              computedHashBuffer = stored computedHashBuffer (mem res)
                          in if raw res = 0 then Inr (None, Some (CouldNotHash (lastErr res)))
                             else Inr (Some computedHashBuffer, None)))))"

section \<open>\<open>DecryptProtectedSettings\<close>\<close>

fun bytes_Compare :: "byte list \<Rightarrow> byte list \<Rightarrow> int" where
  "bytes_Compare [] [] = 0"
| "bytes_Compare [] (y # ys) = - 1"
| "bytes_Compare (x # xs) [] = 1"
| "bytes_Compare (x # xs) (y # ys) =
     (if x < y then - 1 else if y < x then 1 else bytes_Compare xs ys)"

text \<open>
  The variables of \<open>DecryptProtectedSettings\<close> that are declared before the loop and
  live after it. The loop declares a \<open>cert\<close> and an \<open>err\<close> of its own with \<open>:=\<close>; they
  are \<open>cert'\<close> and \<open>err'\<close> here. The loop leaves with \<open>break\<close> (the variables are
  returned), with \<open>return nil, err\<close> (the error is returned) or not at all.
\<close>

record 'c vars =
  cert :: "'c option"
  prevContext :: "'c option"
  found :: bool

partial_function (option) find_certificate ::
  "('c, 'm, 'j) crypt32 \<Rightarrow> uintptr \<Rightarrow> byte list \<Rightarrow> 'c vars
     \<Rightarrow> (panic + ('j error + 'c vars)) option" where
  "find_certificate env handle decodedThumbprint vs =
     (case CertEnumCertificatesInStore env handle (prevContext vs) of
        (cert', Some err') \<Rightarrow>
          (case err' of
             Errno errno \<Rightarrow>
               if errno = crypteENotFound then Some (Inr (Inr vs))
               else Some (Inr (Inl (CouldNotEnumerate err')))
           | OtherError msg \<Rightarrow> Some (Inr (Inl (CouldNotEnumerate err'))))
      | (cert', None) \<Rightarrow>
          if cert' = None then Some (Inr (Inr vs))
          else
            (case getCertificateThumbprint env cert' of
               Inl p \<Rightarrow> Some (Inl p)
             | Inr (foundthumbprint, err') \<Rightarrow>
                 if err' = None \<and> foundthumbprint \<noteq> None
                    \<and> bytes_Compare decodedThumbprint (the foundthumbprint) = 0
                 then Some (Inr (Inr (vs\<lparr>found := True\<rparr>)))
                 else find_certificate env handle decodedThumbprint (vs\<lparr>prevContext := cert'\<rparr>)))"

declare find_certificate.simps [code]

text \<open>The values of the variables when the loop is entered.\<close>

definition vars0 :: "'c vars" where
  "vars0 = \<lparr>cert = None, prevContext = None, found = False\<rparr>"

text \<open>
  The statements after \<open>defer syscall.CertCloseStore(handle, 0)\<close>. The result
  \<open>(map[string]interface{}, error)\<close> is a pair of options.
\<close>

definition after_open ::
  "('c, 'm, 'j) crypt32 \<Rightarrow> uintptr \<Rightarrow> gostring \<Rightarrow> byte list
     \<Rightarrow> (panic + ('m option \<times> 'j error option)) option" where
  "after_open env handle thumbprint decoded =
     (case thumbprintStringToHex thumbprint of
        Inl p \<Rightarrow> Some (Inl p)
      | Inr (decodedThumbprint, Some (err :: 'j error)) \<Rightarrow> Some (Inr (None, Some InvalidThumbprint))
      | Inr (decodedThumbprint, None) \<Rightarrow>
          (case find_certificate env handle decodedThumbprint vars0 of
             None \<Rightarrow> None
           | Some (Inl p) \<Rightarrow> Some (Inl p)
           | Some (Inr (Inl e)) \<Rightarrow> Some (Inr (None, Some e))
           | Some (Inr (Inr vs)) \<Rightarrow>
               if \<not> found vs then Some (Inr (None, Some ErrCertWithThumbprintNotFound))
               else
                 (case decryptDataWithCert env decoded (cert vs) handle of
                    Inl p \<Rightarrow> Some (Inl p)
                  | Inr (decryptedBytes, Some e) \<Rightarrow> Some (Inr (None, Some e))
                  | Inr (decryptedBytes, None) \<Rightarrow>
                      (case json_Unmarshal env decryptedBytes of
                         (v, e) \<Rightarrow> Some (Inr (v, map_option UnmarshalError e))))))"

text \<open>
  The whole function returns its result and the calls it deferred, in the order they
  ran: they run on every return and on a panic, once the \<open>defer\<close> statement has been
  reached. \<open>None\<close> is a call that never returns.
\<close>

datatype deferred = CertCloseStore uintptr uint32

definition DecryptProtectedSettings ::
  "('c, 'm, 'j) crypt32 \<Rightarrow> gostring \<Rightarrow> gostring \<Rightarrow> byte list
     \<Rightarrow> ((panic + ('m option \<times> 'j error option)) \<times> deferred list) option" where
  "DecryptProtectedSettings env configFolder thumbprint decoded =
     (case CertOpenStore env CERT_STORE_PROV_SYSTEM 0 0 CERT_SYSTEM_STORE_LOCAL_MACHINE ''MY'' of
        (handle, Some err) \<Rightarrow> Some (Inr (None, Some (CannotOpenStore err)), [])
      | (handle, None) \<Rightarrow>
          if handle = 0 then Some (Inr (None, Some ErrMustRunAsAdmin), [])
          else map_option (\<lambda>r. (r, [CertCloseStore handle 0]))
                 (after_open env handle thumbprint decoded))"

section \<open>Notions used to state the properties\<close>

text \<open>
  The value of a hexadecimal digit given by its code point, of a pair of runes read as
  two hexadecimal digits, and the runes the codec works on: all runes of the string, or
  all but the first when their number is odd.
\<close>

definition hexval :: "nat \<Rightarrow> nat option" where
  "hexval n =
     (if 48 \<le> n \<and> n \<le> 57 then Some (n - 48)
      else if 97 \<le> n \<and> n \<le> 102 then Some (n - 87)
      else if 65 \<le> n \<and> n \<le> 70 then Some (n - 55)
      else None)"

definition hex_pair :: "rune \<Rightarrow> rune \<Rightarrow> byte option" where
  "hex_pair a b =
     (case hexval (unat a) of
        None \<Rightarrow> None
      | Some x \<Rightarrow> (case hexval (unat b) of None \<Rightarrow> None | Some y \<Rightarrow> Some (of_nat (16 * x + y))))"

definition pair_byte_at :: "rune list \<Rightarrow> nat \<Rightarrow> byte option" where
  "pair_byte_at runes i = hex_pair (runes ! (i * 2)) (runes ! (i * 2 + 1))"

definition effective_runes :: "gostring \<Rightarrow> rune list" where
  "effective_runes s =
     (let runes = stringtoslicerune s in if odd (length runes) then tl runes else runes)"

text \<open>What \<open>digit\<close> computes, on the number of the byte: any letter is a digit up to 35.\<close>

definition digit_nat :: "nat \<Rightarrow> nat option" where
  "digit_nat n =
     (if 48 \<le> n \<and> n \<le> 57 then Some (n - 48)
      else if 97 \<le> n \<and> n \<le> 122 then Some (n - 87)
      else if 65 \<le> n \<and> n \<le> 90 then Some (n - 55)
      else None)"

text \<open>The bytes \<open>thumbprintStringToHex\<close> returns.\<close>

definition thumbprint_bytes :: "gostring \<Rightarrow> byte list" where
  "thumbprint_bytes s =
     (case hex_loop (effective_runes s) (length (effective_runes s) div 2) 0
             (replicate (length (effective_runes s) div 2) 0) of
        Inl p \<Rightarrow> [] | Inr parts \<Rightarrow> parts)"

text \<open>
  The two calls of \<open>CryptDecryptMessage\<close> that \<open>decryptDataWithCert\<close> makes (the size
  query with a nil buffer, then the call that fills the buffer) and the size query of
  \<open>getCertificateThumbprint\<close>.
\<close>

definition size_query :: "('c, 'm, 'j) crypt32 \<Rightarrow> byte list \<Rightarrow> uintptr \<Rightarrow> syscall_result" where
  "size_query env decoded storeHandle =
     CryptDecryptMessage env
       \<lparr>cbSize = of_nat (length decoded),
        dwMsgAndCertEncodingType = X509_ASN_ENCODING OR PKCS_7_ASN_ENCODING,
        cCertStore = 1, rghCertStore = storeHandle, dwFlags = 0\<rparr>
       decoded (of_nat (length decoded)) None 0"

definition fill_call :: "('c, 'm, 'j) crypt32 \<Rightarrow> byte list \<Rightarrow> uintptr \<Rightarrow> syscall_result" where
  "fill_call env decoded storeHandle =
     CryptDecryptMessage env
       \<lparr>cbSize = of_nat (length decoded),
        dwMsgAndCertEncodingType = X509_ASN_ENCODING OR PKCS_7_ASN_ENCODING,
        cCertStore = 1, rghCertStore = storeHandle, dwFlags = 0\<rparr>
       decoded (of_nat (length decoded))
       (Some (replicate (unat (cb (size_query env decoded storeHandle))) 0))
       (cb (size_query env decoded storeHandle))"

definition hash_size_query :: "('c, 'm, 'j) crypt32 \<Rightarrow> 'c option \<Rightarrow> syscall_result" where
  "hash_size_query env c = CertGetCertificateContextProperty env c certHashPropID None 0"

text \<open>
  An entry \<open>c\<close> is skipped by the loop when its thumbprint cannot be computed, is nil or
  differs from the target; it matches when its thumbprint is the target. \<open>skipped\<close> says
  that the enumeration started at the cursor \<open>prev\<close> yields the entries \<open>cs\<close> in this
  order and that the loop skips each of them; \<open>cursor\<close> is the cursor after them.
\<close>

definition entry_skipped :: "('c, 'm, 'j) crypt32 \<Rightarrow> byte list \<Rightarrow> 'c \<Rightarrow> bool" where
  "entry_skipped env t c =
     (case getCertificateThumbprint env (Some c) of
        Inl p \<Rightarrow> False
      | Inr (foundthumbprint, e) \<Rightarrow>
          \<not> (e = None \<and> foundthumbprint \<noteq> None \<and> bytes_Compare t (the foundthumbprint) = 0))"

definition entry_matches :: "('c, 'm, 'j) crypt32 \<Rightarrow> byte list \<Rightarrow> 'c \<Rightarrow> bool" where
  "entry_matches env t c = (getCertificateThumbprint env (Some c) = Inr (Some t, None))"

primrec skipped :: "('c, 'm, 'j) crypt32 \<Rightarrow> uintptr \<Rightarrow> byte list \<Rightarrow> 'c option \<Rightarrow> 'c list \<Rightarrow> bool" where
  "skipped env h t prev [] = True"
| "skipped env h t prev (c # cs) =
     (CertEnumCertificatesInStore env h prev = (Some c, None) \<and> entry_skipped env t c \<and>
      skipped env h t (Some c) cs)"

definition cursor :: "'c option \<Rightarrow> 'c list \<Rightarrow> 'c option" where
  "cursor prev cs = (if cs = [] then prev else Some (last cs))"

section \<open>An example store\<close>

text \<open>
  A store with the handle \<open>0x1000\<close> and two certificates, numbered 1 and 2, with the
  thumbprints \<open>11 22\<close> and \<open>AB 12\<close>; entry 3 (not enumerated) has a hash property of
  size zero. The decryption answers by the first byte of the ciphertext: \<open>0x30\<close> is the
  envelope of \<open>{}\<close> followed by a terminator, \<open>0x31\<close> has a bad ASN.1 tag, \<open>0x32\<close>
  fails with error 5, \<open>0x33\<close> fails in the second call only, \<open>0x34\<close> decrypts to
  \<open>xyz\<close>, anything else to nothing. \<open>json.Unmarshal\<close> accepts \<open>{}\<close> only.
\<close>

definition example_property ::
  "nat option \<Rightarrow> uint32 \<Rightarrow> byte list option \<Rightarrow> uint32 \<Rightarrow> syscall_result" where
  "example_property c prop buf n =
     (if prop \<noteq> 3 then \<lparr>raw = 0, lastErr = 0x80092004, mem = [], cb = n\<rparr>
      else if c = Some 1 then \<lparr>raw = 1, lastErr = 0, mem = [0x11, 0x22], cb = 2\<rparr>
      else if c = Some 2 then \<lparr>raw = 1, lastErr = 0, mem = [0xAB, 0x12], cb = 2\<rparr>
      else if c = Some 3 then \<lparr>raw = 1, lastErr = 0, mem = [], cb = 0\<rparr>
      else \<lparr>raw = 0, lastErr = 87, mem = [], cb = n\<rparr>)"

definition example_enum :: "uintptr \<Rightarrow> nat option \<Rightarrow> nat option \<times> syserr option" where
  "example_enum h prev =
     (if h \<noteq> 0x1000 then (None, Some (Errno 6))
      else if prev = None then (Some 1, None)
      else if prev = Some 1 then (Some 2, None)
      else (None, Some (Errno 0x80092004)))"

definition example_decrypt ::
  "cryptDecryptMessagePara \<Rightarrow> byte list \<Rightarrow> uintptr \<Rightarrow> byte list option \<Rightarrow> uint32
     \<Rightarrow> syscall_result" where
  "example_decrypt para blob n buf m =
     (if blob = [0x30] then
        (if buf = None then \<lparr>raw = 1, lastErr = 0, mem = [], cb = 3\<rparr>
         else \<lparr>raw = 1, lastErr = 0, mem = [0x7B, 0x7D, 0], cb = 2\<rparr>)
      else if blob = [0x31] then \<lparr>raw = 0, lastErr = 2148086027, mem = [], cb = m\<rparr>
      else if blob = [0x32] then \<lparr>raw = 0, lastErr = 5, mem = [], cb = m\<rparr>
      else if blob = [0x33] then
        (if buf = None then \<lparr>raw = 1, lastErr = 0, mem = [], cb = 3\<rparr>
         else \<lparr>raw = 0, lastErr = 2148086027, mem = [], cb = m\<rparr>)
      else if blob = [0x34] then
        (if buf = None then \<lparr>raw = 1, lastErr = 0, mem = [], cb = 3\<rparr>
         else \<lparr>raw = 1, lastErr = 0, mem = [0x78, 0x79, 0x7A], cb = 3\<rparr>)
      else \<lparr>raw = 1, lastErr = 0, mem = [], cb = 0\<rparr>)"

definition example_env :: "(nat, byte list, unit) crypt32" where
  "example_env =
     \<lparr>CertOpenStore = (\<lambda>prov enc hprov flags name. (0x1000, None)),
      CertEnumCertificatesInStore = example_enum,
      CertGetCertificateContextProperty = example_property,
      CryptDecryptMessage = example_decrypt,
      json_Unmarshal = (\<lambda>data. if data = Some [0x7B, 0x7D] then (Some [], None) else (None, Some ()))\<rparr>"

text \<open>
  The same with a store that has no entry (reported by the error code, or by a nil entry
  without an error) and with a store whose enumeration fails after the first entry.
\<close>

definition empty_store_env :: "(nat, byte list, unit) crypt32" where
  "empty_store_env =
     example_env\<lparr>CertEnumCertificatesInStore := \<lambda>h prev. (None, Some (Errno 0x80092004))\<rparr>"

definition nil_store_env :: "(nat, byte list, unit) crypt32" where
  "nil_store_env = example_env\<lparr>CertEnumCertificatesInStore := \<lambda>h prev. (None, None)\<rparr>"

definition failing_store_env :: "(nat, byte list, unit) crypt32" where
  "failing_store_env =
     example_env\<lparr>CertEnumCertificatesInStore :=
        \<lambda>h prev. if prev = None then (Some 1, None) else (None, Some (Errno 5))\<rparr>"

section \<open>Hexadecimal encoding\<close>

text \<open>
  The encoder the round trip is stated with, \<open>hex.EncodeToString\<close> of the Go library
  (two lower-case digits per byte, the high half first); the case conversions of ASCII
  letters; the strings of even length made of hexadecimal digits only; and the bytes
  such a string denotes, pair by pair.
\<close>

definition hextable :: "byte list" where
  "hextable = str ''0123456789abcdef''"

definition EncodeToString :: "byte list \<Rightarrow> gostring" where
  "EncodeToString src =
     concat (map (\<lambda>v. [hextable ! unat (drop_bit 4 v), hextable ! unat (v AND 0x0F)]) src)"

definition ToLower :: "byte \<Rightarrow> byte" where
  "ToLower c = (if 0x41 \<le> c \<and> c \<le> 0x5A then c + 0x20 else c)"

definition ToUpper :: "byte \<Rightarrow> byte" where
  "ToUpper c = (if 0x61 \<le> c \<and> c \<le> 0x7A then c - 0x20 else c)"

definition hex_string :: "gostring \<Rightarrow> bool" where
  "hex_string s = (even (length s) \<and> list_all (\<lambda>c. hexval (unat c) \<noteq> None) s)"

fun decode_pairs :: "gostring \<Rightarrow> byte list" where
  "decode_pairs (a # b # s) =
     of_nat (16 * the (hexval (unat a)) + the (hexval (unat b))) # decode_pairs s"
| "decode_pairs s = []"

section \<open>The digits of \<open>ParseUint\<close>\<close>

declare hex_loop.simps [simp del]

lemma byte_ge_0x80_no_digit: "0x80 \<le> b \<Longrightarrow> digit b = None"
proof -
  assume h: "0x80 \<le> b"
  have "b \<le> lower b" unfolding lower_def by (rule le_word_or2)
  with h show ?thesis by (auto simp: digit_def word_le_nat_alt)
qed

lemma digit_below_0x80:
  "list_all (\<lambda>n. map_option unat (digit (of_nat n)) = digit_nat n) [0..<128]"
  by code_simp

lemma digit_eq: "map_option unat (digit c) = digit_nat (unat c)"
proof (cases "c < 0x80")
  case True
  then have "unat c < 128" by (simp add: word_less_nat_alt)
  then have "unat c \<in> set [0..<128]" by simp
  with digit_below_0x80 have "map_option unat (digit (of_nat (unat c))) = digit_nat (unat c)"
    unfolding list_all_iff by blast
  then show ?thesis by simp
next
  case False
  then have "0x80 \<le> c" by simp
  then have "digit c = None" by (rule byte_ge_0x80_no_digit)
  moreover from \<open>0x80 \<le> c\<close> have "128 \<le> unat c" by (simp add: word_le_nat_alt)
  then have "digit_nat (unat c) = None" by (simp add: digit_nat_def)
  ultimately show ?thesis by simp
qed

lemma hexval_less_16: "hexval n = Some a \<Longrightarrow> a < 16"
  by (auto simp: hexval_def split: if_splits)

lemma hexval_digit_nat: "hexval n = Some a \<Longrightarrow> digit_nat n = Some a"
  by (auto simp: hexval_def digit_nat_def split: if_splits)

lemma nonhex_digit_nat:
  "hexval n = None \<Longrightarrow> digit_nat n = None \<or> (\<exists>a. digit_nat n = Some a \<and> 16 \<le> a)"
  by (simp add: hexval_def digit_nat_def split: if_splits) arith

lemma digit_hex:
  assumes "hexval (unat c) = Some a"
  shows "\<exists>d. digit c = Some d \<and> unat d = a \<and> \<not> 16 \<le> d"
proof -
  have "map_option unat (digit c) = Some a"
    using assms by (simp add: digit_eq hexval_digit_nat)
  then obtain d where d: "digit c = Some d" "unat d = a" by auto
  have "a < 16" using assms by (rule hexval_less_16)
  with d have "\<not> 16 \<le> d" by (simp add: word_le_nat_alt)
  with d show ?thesis by simp
qed

lemma digit_nonhex:
  assumes "hexval (unat c) = None"
  shows "digit c = None \<or> (\<exists>d. digit c = Some d \<and> 16 \<le> d)"
proof -
  from nonhex_digit_nat [OF assms]
  have "map_option unat (digit c) = None \<or> (\<exists>a. map_option unat (digit c) = Some a \<and> 16 \<le> a)"
    by (simp add: digit_eq)
  then show ?thesis by (auto simp: word_le_nat_alt)
qed

section \<open>\<open>ParseUint\<close> on a pair of runes\<close>

lemma cutoff_unat: "unat cutoff = 2 ^ 60"
  by (simp add: cutoff_def)

lemma maxVal_unat: "unat maxVal = 65535"
  by (simp add: maxVal_def)

lemma ucast_digit: "unat (d::byte) = a \<Longrightarrow> (ucast d :: uint64) = of_nat a"
  by auto

lemma below_cutoff: "unat n < 4096 \<Longrightarrow> \<not> cutoff \<le> n"
  by (simp add: word_le_nat_alt cutoff_unat)

lemma unat_times_16: "unat (n::uint64) < 4096 \<Longrightarrow> unat (n * 16) = unat n * 16"
  by (simp add: unat_word_ariths)

lemma unat_next_digit:
  "unat (n::uint64) < 4096 \<Longrightarrow> a < 16 \<Longrightarrow> unat (n * 16 + of_nat a) = unat n * 16 + a"
  by (simp add: unat_word_ariths unat_of_nat)

lemma ParseUint_digits_bad:
  assumes "hexval (unat c) = None"
  shows "ParseUint_digits n (c # cs) = (0, Some ErrSyntax)"
proof -
  have "digit c = None \<or> (\<exists>d. digit c = Some d \<and> 16 \<le> d)"
    using assms by (rule digit_nonhex)
  then show ?thesis
  proof (elim disjE exE conjE)
    assume "digit c = None"
    then show ?thesis by simp
  next
    fix d assume "digit c = Some d" "16 \<le> d"
    then show ?thesis by simp
  qed
qed

lemma ParseUint_digits_hex:
  assumes "hexval (unat c) = Some a" and "unat n < 4096"
  shows "ParseUint_digits n (c # cs) = ParseUint_digits (n * 16 + of_nat a) cs"
proof -
  from assms(1) obtain d where d: "digit c = Some d" "unat d = a" "\<not> 16 \<le> d"
    using digit_hex by blast
  have a16: "a < 16" using assms(1) by (rule hexval_less_16)
  have ud: "(ucast d :: uint64) = of_nat a" using d(2) by (rule ucast_digit)
  have c: "\<not> cutoff \<le> n" using assms(2) by (rule below_cutoff)
  have m: "unat (n * 16) = unat n * 16" using assms(2) by (rule unat_times_16)
  have s: "unat (n * 16 + of_nat a) = unat n * 16 + a" using assms(2) a16 by (rule unat_next_digit)
  have o: "\<not> (n * 16 + of_nat a < n * 16)" using s m by (simp add: word_less_nat_alt)
  have x: "\<not> (n * 16 + of_nat a > maxVal)"
    using s assms(2) a16 by (simp add: word_less_nat_alt maxVal_unat)
  show ?thesis using d(1,3) c o x ud by (simp add: Let_def)
qed

lemma encoderune_ascii: "r \<le> 0x7F \<Longrightarrow> encoderune r = [ucast r]"
  by (simp add: encoderune_def)

lemma lead_byte_ge_0x80:
  assumes "(0x80::byte) \<le> t"
  shows "0x80 \<le> t OR x"
proof -
  have "t \<le> t OR x" by (rule le_word_or2)
  with assms show ?thesis by simp
qed

lemma encoderune_nonascii: "\<not> r \<le> 0x7F \<Longrightarrow> \<exists>b bs. encoderune r = b # bs \<and> 0x80 \<le> b"
  by (simp add: encoderune_def lead_byte_ge_0x80)

lemma encoderune_nonempty: "encoderune r \<noteq> []"
  by (simp add: encoderune_def)

lemma hexval_ascii: "hexval (unat (r::rune)) = Some a \<Longrightarrow> r \<le> 0x7F"
  by (auto simp: hexval_def word_le_nat_alt split: if_splits)

lemma unat_ucast_ascii: "(r::rune) \<le> 0x7F \<Longrightarrow> unat (ucast r :: byte) = unat r"
proof -
  assume "r \<le> 0x7F"
  then have "unat r < 256" by (simp add: word_le_nat_alt)
  have "(ucast r :: byte) = of_nat (unat r)" by simp
  then have "unat (ucast r :: byte) = unat (of_nat (unat r) :: byte)" by (simp only:)
  also have "\<dots> = unat r" using \<open>unat r < 256\<close> by (simp only: unat_of_nat) simp
  finally show ?thesis .
qed

lemma parse_rune_bad:
  assumes "hexval (unat (r::rune)) = None"
  shows "ParseUint_digits n (encoderune r @ cs) = (0, Some ErrSyntax)"
proof (cases "r \<le> 0x7F")
  case True
  then have "hexval (unat (ucast r :: byte)) = None" using assms by (simp add: unat_ucast_ascii)
  then have "ParseUint_digits n (ucast r # cs) = (0, Some ErrSyntax)" by (rule ParseUint_digits_bad)
  then show ?thesis using True by (simp add: encoderune_ascii)
next
  case False
  then obtain b bs where b: "encoderune r = b # bs" "0x80 \<le> b"
    using encoderune_nonascii by blast
  from b(2) have "digit b = None" by (rule byte_ge_0x80_no_digit)
  then show ?thesis using b(1) by simp
qed

lemma parse_rune_hex:
  assumes "hexval (unat (r::rune)) = Some a" and "unat n < 4096"
  shows "ParseUint_digits n (encoderune r @ cs) = ParseUint_digits (n * 16 + of_nat a) cs"
proof -
  have r: "r \<le> 0x7F" using assms(1) by (rule hexval_ascii)
  then have "hexval (unat (ucast r :: byte)) = Some a" using assms(1) by (simp add: unat_ucast_ascii)
  then have "ParseUint_digits n (ucast r # cs) = ParseUint_digits (n * 16 + of_nat a) cs"
    using assms(2) by (rule ParseUint_digits_hex)
  then show ?thesis using r by (simp add: encoderune_ascii)
qed

lemma ParseUint_pair:
  "ParseUint_16_16 (slicerunetostring [r1, r2]) =
     (case hexval (unat r1) of
        None \<Rightarrow> (0, Some ErrSyntax)
      | Some a \<Rightarrow> (case hexval (unat r2) of
                     None \<Rightarrow> (0, Some ErrSyntax)
                   | Some b \<Rightarrow> (of_nat a * 16 + of_nat b, None)))"
proof -
  have s: "slicerunetostring [r1, r2] = encoderune r1 @ encoderune r2 @ []"
    by (simp add: slicerunetostring_def)
  have ne: "slicerunetostring [r1, r2] \<noteq> []"
    by (simp add: slicerunetostring_def encoderune_nonempty)
  show ?thesis
  proof (cases "hexval (unat r1)")
    case None
    then show ?thesis using ne unfolding ParseUint_16_16_def s
      by (simp only: parse_rune_bad) simp
  next
    case (Some a)
    have a16: "a < 16" using Some by (rule hexval_less_16)
    have st1: "ParseUint_digits 0 (encoderune r1 @ encoderune r2 @ []) =
               ParseUint_digits (of_nat a) (encoderune r2 @ [])"
      using parse_rune_hex [OF Some, of 0] by simp
    show ?thesis
    proof (cases "hexval (unat r2)")
      case None
      have "ParseUint_digits (of_nat a) (encoderune r2 @ []) = (0, Some ErrSyntax)"
        using None by (rule parse_rune_bad)
      then show ?thesis using ne Some None st1 unfolding ParseUint_16_16_def s by simp
    next
      case (Some b)
      have "unat (of_nat a :: uint64) < 4096" using a16 by (simp add: unat_of_nat)
      then have "ParseUint_digits (of_nat a) (encoderune r2 @ []) =
                 ParseUint_digits (of_nat a * 16 + of_nat b) []"
        using Some by (simp only: parse_rune_hex)
      then show ?thesis using ne \<open>hexval (unat r1) = Some a\<close> Some st1
        unfolding ParseUint_16_16_def s by simp
    qed
  qed
qed

lemma pair_byte:
  assumes "a < 16" "b < 16"
  shows "(ucast (of_nat a * 16 + of_nat b :: uint64) :: byte) = of_nat (16 * a + b)"
proof -
  have "(of_nat a * 16 + of_nat b :: uint64) = of_nat (16 * a + b)" by simp
  then have "(ucast (of_nat a * 16 + of_nat b :: uint64) :: byte) =
             ucast (of_nat (16 * a + b) :: uint64)"
    by (simp only:)
  also have "\<dots> = of_nat (take_bit 64 (16 * a + b))" by (simp only: unsigned_of_nat) simp
  also have "take_bit 64 (16 * a + b) = 16 * a + b"
    using assms by (simp add: take_bit_nat_eq_self)
  finally show ?thesis .
qed

section \<open>The loop of the codec\<close>

lemma take_2_drop:
  assumes "k + 2 \<le> length xs"
  shows "take 2 (drop k xs) = [xs ! k, xs ! (k + 1)]"
proof -
  have 1: "drop k xs = xs ! k # drop (Suc k) xs"
    using assms by (simp add: Cons_nth_drop_Suc)
  have 2: "drop (Suc k) xs = xs ! (Suc k) # drop (Suc (Suc k)) xs"
    using assms by (simp add: Cons_nth_drop_Suc)
  have "take 2 (drop k xs) = take (Suc (Suc 0)) (xs ! k # xs ! (Suc k) # drop (Suc (Suc k)) xs)"
    by (simp only: 1 2 numeral_2_eq_2)
  then show ?thesis by simp
qed

lemma go_slice_pair:
  assumes "k + 2 \<le> length xs"
  shows "go_slice xs k (k + 2) = Inr [xs ! k, xs ! (k + 1)]"
  using assms take_2_drop [OF assms] by (simp add: go_slice_def)

lemma hex_loop_step:
  assumes "count < len" "2 * len \<le> length runes" "length parts = len"
  shows "hex_loop runes len count parts =
           hex_loop runes len (count + 1)
             (case pair_byte_at runes count of Some v \<Rightarrow> parts[count := v] | None \<Rightarrow> parts)"
proof -
  have sl: "go_slice runes (count * 2) (count * 2 + 2) =
            Inr [runes ! (count * 2), runes ! (count * 2 + 1)]"
    using assms by (intro go_slice_pair) simp
  show ?thesis
  proof (cases "hexval (unat (runes ! (count * 2)))")
    case None
    then show ?thesis using assms
      by (subst hex_loop.simps)
         (simp only: sl, simp add: ParseUint_pair pair_byte_at_def hex_pair_def)
  next
    case a: (Some a)
    show ?thesis
    proof (cases "hexval (unat (runes ! (count * 2 + 1)))")
      case None
      then show ?thesis using assms a
        by (subst hex_loop.simps)
           (simp only: sl, simp add: ParseUint_pair pair_byte_at_def hex_pair_def)
    next
      case (Some b)
      have "a < 16" "b < 16" using a Some by (auto dest: hexval_less_16)
      then have pb: "(ucast (of_nat a * 16 + of_nat b :: uint64) :: byte) = of_nat (16 * a + b)"
        by (rule pair_byte)
      show ?thesis using assms a Some
        by (subst hex_loop.simps)
           (simp only: sl, simp add: ParseUint_pair pair_byte_at_def hex_pair_def pb
              del: of_nat_add of_nat_mult)
    qed
  qed
qed

lemma hex_loop_done: "\<not> count < len \<Longrightarrow> hex_loop runes len count parts = Inr parts"
  by (subst hex_loop.simps) simp

lemma hex_loop_result:
  assumes "2 * len \<le> length runes" "length parts = len" "count \<le> len"
  shows "\<exists>ps. hex_loop runes len count parts = Inr ps \<and> length ps = len \<and>
           (\<forall>i<len. ps ! i = (if count \<le> i
                               then (case pair_byte_at runes i of Some v \<Rightarrow> v | None \<Rightarrow> parts ! i)
                               else parts ! i))"
  using assms
proof (induction "len - count" arbitrary: count parts)
  case 0
  then have "hex_loop runes len count parts = Inr parts" by (intro hex_loop_done) simp
  then show ?case using 0 by auto
next
  case (Suc k)
  then have lt: "count < len" by simp
  define parts' where
    "parts' = (case pair_byte_at runes count of Some v \<Rightarrow> parts[count := v] | None \<Rightarrow> parts)"
  have st: "hex_loop runes len count parts = hex_loop runes len (count + 1) parts'"
    unfolding parts'_def using lt Suc.prems(1,2) by (rule hex_loop_step)
  have len': "length parts' = len" using Suc.prems(2) by (simp add: parts'_def split: option.splits)
  have "k = len - (count + 1)" using Suc.hyps(2) by simp
  from Suc.hyps(1) [OF this Suc.prems(1) len'] lt
  obtain ps where ps: "hex_loop runes len (count + 1) parts' = Inr ps" "length ps = len"
    "\<forall>i<len. ps ! i = (if count + 1 \<le> i
                        then (case pair_byte_at runes i of Some v \<Rightarrow> v | None \<Rightarrow> parts' ! i)
                        else parts' ! i)"
    by auto
  have "\<forall>i<len. ps ! i = (if count \<le> i
                           then (case pair_byte_at runes i of Some v \<Rightarrow> v | None \<Rightarrow> parts ! i)
                           else parts ! i)"
  proof (intro allI impI)
    fix i assume i: "i < len"
    show "ps ! i = (if count \<le> i
                    then (case pair_byte_at runes i of Some v \<Rightarrow> v | None \<Rightarrow> parts ! i)
                    else parts ! i)"
    proof (cases "i = count")
      case True
      then show ?thesis using ps(3) i Suc.prems(2) by (simp add: parts'_def split: option.splits)
    next
      case False
      then have "parts' ! i = parts ! i" by (simp add: parts'_def split: option.splits)
      then show ?thesis using ps(3) i False by (auto split: option.splits)
    qed
  qed
  then show ?case using st ps(1,2) by simp
qed

lemma thumbprintStringToHex_unfold:
  "thumbprintStringToHex s =
     (case hex_loop (effective_runes s) (length (effective_runes s) div 2) 0
             (replicate (length (effective_runes s) div 2) 0) of
        Inl p \<Rightarrow> Inl p | Inr parts \<Rightarrow> Inr (parts, None))"
proof (cases "odd (length (stringtoslicerune s))")
  case True
  then have "stringtoslicerune s \<noteq> []" by auto
  then have "go_slice (stringtoslicerune s) 1 (length (stringtoslicerune s)) =
             Inr (tl (stringtoslicerune s))"
    by (cases "stringtoslicerune s") (simp_all add: go_slice_def)
  then show ?thesis using True
    by (simp add: thumbprintStringToHex_def effective_runes_def Let_def odd_iff_mod_2_eq_one)
next
  case False
  then show ?thesis
    by (simp add: thumbprintStringToHex_def effective_runes_def Let_def odd_iff_mod_2_eq_one)
qed

lemma thumbprint_bytes_result:
  "length (thumbprint_bytes s) = length (effective_runes s) div 2 \<and>
   hex_loop (effective_runes s) (length (effective_runes s) div 2) 0
     (replicate (length (effective_runes s) div 2) 0) = Inr (thumbprint_bytes s) \<and>
   (\<forall>i < length (effective_runes s) div 2.
      thumbprint_bytes s ! i =
        (case pair_byte_at (effective_runes s) i of Some v \<Rightarrow> v | None \<Rightarrow> 0))"
proof -
  define runes where "runes = effective_runes s"
  define len where "len = length runes div 2"
  have "2 * len \<le> length runes" by (simp add: len_def)
  moreover have "length (replicate len (0::byte)) = len" by simp
  moreover have "0 \<le> len" by simp
  ultimately obtain ps where ps: "hex_loop runes len 0 (replicate len 0) = Inr ps" "length ps = len"
    "\<forall>i<len. ps ! i =
       (if 0 \<le> i
        then (case pair_byte_at runes i of Some v \<Rightarrow> v | None \<Rightarrow> replicate len 0 ! i)
        else replicate len 0 ! i)"
    using hex_loop_result [of len runes "replicate len 0" 0] by blast
  have tb: "thumbprint_bytes s = ps"
    using ps(1) by (simp add: thumbprint_bytes_def runes_def len_def)
  have "\<forall>i < len. ps ! i = (case pair_byte_at runes i of Some v \<Rightarrow> v | None \<Rightarrow> 0)"
    using ps(2,3) by (auto split: option.splits)
  then show ?thesis using ps(1,2) tb unfolding runes_def len_def by simp
qed

lemma thumbprintStringToHex_bytes: "thumbprintStringToHex s = Inr (thumbprint_bytes s, None)"
  using thumbprint_bytes_result [of s] by (simp add: thumbprintStringToHex_unfold)

text \<open>
  C4. For every input string the codec returns a byte sequence and the nil error: it
  neither fails nor panics. When the string has an odd number of characters the first
  one is dropped, whatever it is; byte \<open>i\<close> of the result is the value of the pair of
  characters \<open>2 i\<close> and \<open>2 i + 1\<close> read as two hexadecimal digits (a value below 256)
  and zero when the pair does not parse; the result has half as many bytes as there are
  characters left.
\<close>

theorem thumbprintStringToHex_total:
  "\<exists>parts. thumbprintStringToHex s = Inr (parts, None) \<and>
      length parts = length (effective_runes s) div 2 \<and>
      (\<forall>i < length parts.
          parts ! i =
            (case hex_pair (effective_runes s ! (i * 2)) (effective_runes s ! (i * 2 + 1)) of
               Some v \<Rightarrow> v | None \<Rightarrow> 0))"
  using thumbprint_bytes_result [of s]
  by (intro exI [of _ "thumbprint_bytes s"]) (simp add: pair_byte_at_def thumbprintStringToHex_bytes)

theorem thumbprintStringToHex_total_witness:
  "thumbprintStringToHex (str ''xAB1g'') = Inr ([0xAB, 0], None :: unit error option)"
proof -
  obtain parts where p:
      "thumbprintStringToHex (str ''xAB1g'') = Inr (parts, None :: unit error option)"
      "length parts = length (effective_runes (str ''xAB1g'')) div 2"
      "\<forall>i < length parts.
          parts ! i = (case hex_pair (effective_runes (str ''xAB1g'') ! (i * 2))
                                     (effective_runes (str ''xAB1g'') ! (i * 2 + 1)) of
                         Some v \<Rightarrow> v | None \<Rightarrow> 0)"
    using thumbprintStringToHex_total [of "str ''xAB1g''"] by blast
  have r: "effective_runes (str ''xAB1g'') = [0x41, 0x42, 0x31, 0x67]" by code_simp
  have l: "length parts = 2" using p(2) r by simp
  have "parts ! 0 = 0xAB" "parts ! 1 = 0"
    using p(3) l r by (simp_all add: hex_pair_def hexval_def)
  then have "parts = [0xAB, 0]" using l
    by (cases parts; cases "tl parts") auto
  with p(1) show ?thesis by simp
qed

section \<open>The round trip of the codec\<close>

lemma tolower_table:
  "list_all (\<lambda>n. case hexval n of None \<Rightarrow> True | Some a \<Rightarrow> hextable ! a = ToLower (of_nat n)) [0..<128]"
  by code_simp

lemma hextable_val: "list_all (\<lambda>n. hexval (unat (hextable ! n)) = Some n) [0..<16]"
  by code_simp

lemma case_table:
  "list_all (\<lambda>n. hexval (unat (ToUpper (of_nat n))) = hexval n \<and>
                  hexval (unat (ToLower (of_nat n))) = hexval n) [0..<128]"
  by code_simp

lemma unat_hi_nibble: "unat (drop_bit 4 (v::byte)) = unat v div 16"
proof -
  have "unat (drop_bit 4 v) = drop_bit 4 (unat v)" by (rule unat_drop_bit_eq)
  also have "\<dots> = unat v div 16" by (simp add: drop_bit_eq_div)
  finally show ?thesis .
qed

lemma unat_lo_nibble: "unat ((v::byte) AND 0x0F) = unat v mod 16"
proof -
  have "(0x0F::byte) = mask 4" by (simp add: mask_eq_exp_minus_1)
  then have "v AND 0x0F = take_bit 4 v" by (simp add: take_bit_eq_mask)
  then have "unat (v AND 0x0F) = unat (take_bit 4 v)" by (simp only:)
  also have "\<dots> = take_bit 4 (unat v)" by (rule unsigned_take_bit_eq)
  also have "\<dots> = unat v mod 16" by (simp add: take_bit_eq_mod)
  finally show ?thesis .
qed

lemma unat_rune_of: "unat (rune_of c) = unat c"
proof -
  have "unat c < 2 ^ 32" using unsigned_less [of c, where 'a = nat] by simp
  then show ?thesis by (simp add: rune_of_def unsigned_ucast_eq take_bit_nat_eq_self)
qed

lemma hex_byte_ascii: "hexval (unat (c::byte)) \<noteq> None \<Longrightarrow> c < 0x80"
  by (auto simp: hexval_def word_less_nat_alt split: if_splits)

lemma stringtoslicerune_hex:
  "list_all (\<lambda>c. hexval (unat c) \<noteq> None) s \<Longrightarrow> stringtoslicerune s = map rune_of s"
  by (induction s) (simp_all add: hex_byte_ascii)

lemma effective_runes_hex: "hex_string s \<Longrightarrow> effective_runes s = map rune_of s"
  by (simp add: hex_string_def effective_runes_def stringtoslicerune_hex)

lemma length_decode_pairs: "length (decode_pairs s) = length s div 2"
  by (induction s rule: decode_pairs.induct) simp_all

lemma nth_decode_pairs:
  "i < length s div 2 \<Longrightarrow>
     decode_pairs s ! i =
       of_nat (16 * the (hexval (unat (s ! (i * 2)))) + the (hexval (unat (s ! (i * 2 + 1)))))"
proof (induction s arbitrary: i rule: decode_pairs.induct)
  case (1 a b s)
  then show ?case by (cases i) simp_all
qed simp_all

lemma thumbprint_bytes_hex:
  assumes "hex_string s"
  shows "thumbprint_bytes s = decode_pairs s"
proof (rule nth_equalityI)
  have er: "effective_runes s = map rune_of s" using assms by (rule effective_runes_hex)
  show l: "length (thumbprint_bytes s) = length (decode_pairs s)"
    using thumbprint_bytes_result [of s] by (simp add: er length_decode_pairs)
  fix i assume "i < length (thumbprint_bytes s)"
  then have i: "i < length s div 2" using l by (simp add: length_decode_pairs)
  then have i2: "i * 2 < length s" "i * 2 + 1 < length s" by auto
  have h: "hexval (unat (s ! (i * 2))) \<noteq> None" "hexval (unat (s ! (i * 2 + 1))) \<noteq> None"
    using assms i2 by (simp_all add: hex_string_def list_all_length)
  have "thumbprint_bytes s ! i =
          (case pair_byte_at (map rune_of s) i of Some v \<Rightarrow> v | None \<Rightarrow> 0)"
    using thumbprint_bytes_result [of s] i by (simp add: er)
  also have "\<dots> = of_nat (16 * the (hexval (unat (s ! (i * 2)))) +
                          the (hexval (unat (s ! (i * 2 + 1)))))"
    using h i2 by (auto simp: pair_byte_at_def hex_pair_def unat_rune_of)
  finally show "thumbprint_bytes s ! i = decode_pairs s ! i"
    using i by (simp add: nth_decode_pairs)
qed

lemma tolower_hex:
  assumes "hexval (unat (c::byte)) = Some a"
  shows "hextable ! a = ToLower c"
proof -
  have "c < 0x80" using assms by (intro hex_byte_ascii) simp
  then have "unat c \<in> set [0..<128]" by (simp add: word_less_nat_alt)
  with tolower_table
  have "case hexval (unat c) of None \<Rightarrow> True | Some a \<Rightarrow> hextable ! a = ToLower (of_nat (unat c))"
    unfolding list_all_iff by blast
  then show ?thesis using assms by simp
qed

lemma hexval_hextable: "n < 16 \<Longrightarrow> hexval (unat (hextable ! n)) = Some n"
proof -
  assume "n < 16"
  then have "n \<in> set [0..<16]" by simp
  with hextable_val show ?thesis unfolding list_all_iff by blast
qed

lemma hexval_case:
  assumes "hexval (unat (c::byte)) \<noteq> None"
  shows "hexval (unat (ToUpper c)) = hexval (unat c)" "hexval (unat (ToLower c)) = hexval (unat c)"
proof -
  have "c < 0x80" using assms by (rule hex_byte_ascii)
  then have "unat c \<in> set [0..<128]" by (simp add: word_less_nat_alt)
  with case_table
  have "hexval (unat (ToUpper (of_nat (unat c) :: byte))) = hexval (unat c) \<and>
        hexval (unat (ToLower (of_nat (unat c) :: byte))) = hexval (unat c)"
    unfolding list_all_iff by blast
  then show "hexval (unat (ToUpper c)) = hexval (unat c)"
    "hexval (unat (ToLower c)) = hexval (unat c)" by simp_all
qed

lemma encode_pair:
  assumes "hexval (unat a) = Some x" "hexval (unat b) = Some y"
  shows "EncodeToString [of_nat (16 * x + y)] = [ToLower a, ToLower b]"
proof -
  have xy: "x < 16" "y < 16" using assms by (auto dest: hexval_less_16)
  have "unat (of_nat (16 * x + y) :: byte) = (16 * x + y) mod 2 ^ LENGTH(8)"
    by (rule unat_of_nat)
  also have "\<dots> = 16 * x + y" using xy by simp
  finally have u: "unat (of_nat (16 * x + y) :: byte) = 16 * x + y" .
  have "unat (drop_bit 4 (of_nat (16 * x + y) :: byte)) = (16 * x + y) div 16"
    by (simp only: unat_hi_nibble u)
  moreover have "(16 * x + y) div 16 = x" using xy by simp
  moreover have "unat ((of_nat (16 * x + y) :: byte) AND 0x0F) = (16 * x + y) mod 16"
    by (simp only: unat_lo_nibble u)
  moreover have "(16 * x + y) mod 16 = y" using xy by simp
  ultimately show ?thesis
    using assms by (simp add: EncodeToString_def tolower_hex del: of_nat_add of_nat_mult)
qed

lemma EncodeToString_Cons: "EncodeToString (v # vs) = EncodeToString [v] @ EncodeToString vs"
  by (simp add: EncodeToString_def)

lemma encode_decode_pairs:
  "hex_string s \<Longrightarrow> EncodeToString (decode_pairs s) = map ToLower s"
proof (induction s rule: decode_pairs.induct)
  case (1 a b s)
  then obtain x y where xy: "hexval (unat a) = Some x" "hexval (unat b) = Some y"
    by (auto simp: hex_string_def)
  have "hex_string s" using 1(2) by (simp add: hex_string_def)
  then have "EncodeToString (decode_pairs s) = map ToLower s" by (rule 1(1))
  then show ?case
    using encode_pair [OF xy] xy
    by (simp add: EncodeToString_Cons [of _ "decode_pairs s"] del: of_nat_add of_nat_mult)
qed (simp_all add: EncodeToString_def hex_string_def)

lemma decode_pairs_case:
  "hex_string s \<Longrightarrow> decode_pairs (map ToUpper s) = decode_pairs s \<and>
                    decode_pairs (map ToLower s) = decode_pairs s"
proof (induction s rule: decode_pairs.induct)
  case (1 a b s)
  then have h: "hexval (unat a) \<noteq> None" "hexval (unat b) \<noteq> None" and "hex_string s"
    by (simp_all add: hex_string_def)
  then show ?case using 1(1) by (simp add: hexval_case)
qed simp_all

lemma hex_string_case: "hex_string s \<Longrightarrow> hex_string (map ToUpper s) \<and> hex_string (map ToLower s)"
  by (simp add: hex_string_def list_all_iff hexval_case)

lemma hex_string_encode: "hex_string (EncodeToString bs)"
proof (induction bs)
  case Nil
  then show ?case by (simp add: hex_string_def EncodeToString_def)
next
  case (Cons v bs)
  have "unat v div 16 < 16" "unat v mod 16 < 16"
    using unsigned_less [of v, where 'a = nat] by simp_all
  then have "hexval (unat (hextable ! (unat v div 16))) \<noteq> None"
            "hexval (unat (hextable ! (unat v mod 16))) \<noteq> None"
    by (simp_all add: hexval_hextable)
  then have "hex_string (EncodeToString [v])"
    by (simp add: hex_string_def EncodeToString_def unat_hi_nibble unat_lo_nibble)
  then show ?case using Cons
    by (subst EncodeToString_Cons) (simp add: hex_string_def)
qed

lemma decode_encode: "decode_pairs (EncodeToString bs) = bs"
proof (induction bs)
  case Nil
  then show ?case by (simp add: EncodeToString_def)
next
  case (Cons v bs)
  have lt: "unat v div 16 < 16" "unat v mod 16 < 16"
    using unsigned_less [of v, where 'a = nat] by simp_all
  have "(of_nat (16 * (unat v div 16) + unat v mod 16) :: byte) = of_nat (unat v)"
    by (simp only: mult_div_mod_eq)
  then have v: "(of_nat (16 * (unat v div 16) + unat v mod 16) :: byte) = v" by simp
  have "EncodeToString (v # bs) =
          hextable ! (unat v div 16) # hextable ! (unat v mod 16) # EncodeToString bs"
    by (simp add: EncodeToString_def unat_hi_nibble unat_lo_nibble)
  then show ?case using Cons lt v
    by (simp add: hexval_hextable del: of_nat_add of_nat_mult)
qed


text \<open>
  C7. For every string of even length made of hexadecimal digits only, the codec
  returns bytes whose hexadecimal encoding is the string itself in lower case, so that
  decoding the encoding gives the same bytes again; and the upper-case and lower-case
  spellings of the string decode to these same bytes. (Decoding the encoding of any
  byte sequence gives the sequence back.)
\<close>

theorem hex_round_trip:
  "hex_string s \<Longrightarrow>
     (\<exists>bs. thumbprintStringToHex s = Inr (bs, None :: 'j error option) \<and>
           EncodeToString bs = map ToLower s \<and>
           thumbprintStringToHex (EncodeToString bs) = Inr (bs, None :: 'j error option) \<and>
           thumbprintStringToHex (map ToUpper s) = Inr (bs, None :: 'j error option) \<and>
           thumbprintStringToHex (map ToLower s) = Inr (bs, None :: 'j error option)) \<and>
     thumbprintStringToHex (EncodeToString src) = Inr (src, None :: 'j error option)"
proof -
  assume h: "hex_string s"
  have any: "\<And>bs. thumbprint_bytes (EncodeToString bs) = bs"
    by (simp add: thumbprint_bytes_hex hex_string_encode decode_encode)
  have "thumbprint_bytes s = decode_pairs s" using h by (rule thumbprint_bytes_hex)
  moreover have "EncodeToString (decode_pairs s) = map ToLower s"
    using h by (rule encode_decode_pairs)
  moreover have "thumbprint_bytes (map ToUpper s) = decode_pairs s"
    using h hex_string_case [OF h] decode_pairs_case [OF h] by (simp add: thumbprint_bytes_hex)
  moreover have "thumbprint_bytes (map ToLower s) = decode_pairs s"
    using h hex_string_case [OF h] decode_pairs_case [OF h] by (simp add: thumbprint_bytes_hex)
  ultimately show ?thesis
    using any by (intro conjI exI [of _ "decode_pairs s"]) (simp_all add: thumbprintStringToHex_bytes)
qed

theorem hex_round_trip_witness:
  "hex_string (str ''Ab12'') \<and>
   thumbprintStringToHex (str ''Ab12'') = Inr ([0xAB, 0x12], None :: unit error option) \<and>
   EncodeToString [0xAB, 0x12] = str ''ab12'' \<and>
   thumbprintStringToHex (str ''ab12'') = Inr ([0xAB, 0x12], None :: unit error option) \<and>
   thumbprintStringToHex (str ''AB12'') = Inr ([0xAB, 0x12], None :: unit error option)"
proof -
  have hs: "hex_string (str ''Ab12'')" by code_simp
  obtain bs where bs:
      "thumbprintStringToHex (str ''Ab12'') = Inr (bs, None :: unit error option)"
      "EncodeToString bs = map ToLower (str ''Ab12'')"
      "thumbprintStringToHex (map ToUpper (str ''Ab12'')) = Inr (bs, None :: unit error option)"
      "thumbprintStringToHex (map ToLower (str ''Ab12'')) = Inr (bs, None :: unit error option)"
    using hex_round_trip [OF hs] by blast
  have e: "EncodeToString [0xAB, 0x12] = str ''ab12''" by code_simp
  have l: "map ToLower (str ''Ab12'') = str ''ab12''" by code_simp
  have u: "map ToUpper (str ''Ab12'') = str ''AB12''" by code_simp
  have "thumbprintStringToHex (str ''Ab12'') = Inr ([0xAB, 0x12], None :: unit error option)"
    by code_simp
  then have "bs = [0xAB, 0x12]" using bs(1) by simp
  then show ?thesis using hs bs e l u by simp
qed

section \<open>The two-phase calls\<close>

lemma go_index_nonempty: "xs \<noteq> [] \<Longrightarrow> go_index xs 0 = Inr (xs ! 0)"
  by (simp add: go_index_def)

lemma go_index_replicate:
  "n \<noteq> 0 \<Longrightarrow> go_index (replicate (unat (n::uint32)) (0::byte)) 0 = Inr 0"
  by (simp add: go_index_def unat_gt_0)

lemma decrypt_phase1_failed:
  assumes "decoded \<noteq> []" "raw (size_query env decoded h) = 0"
  shows "decryptDataWithCert env decoded c h =
           (if lastErr (size_query env decoded h) = crypteEAsn1BadTag
            then Inr (None, Some ErrInvalidProtectedSettingsData)
            else Inr (None, Some (CouldNotDecrypt (lastErr (size_query env decoded h)))))"
  using assms by (simp add: decryptDataWithCert_def size_query_def go_index_nonempty Let_def)

lemma decrypt_size_zero:
  assumes "decoded \<noteq> []" "raw (size_query env decoded h) \<noteq> 0" "cb (size_query env decoded h) = 0"
  shows "decryptDataWithCert env decoded c h = Inr (None, None)"
  using assms by (simp add: decryptDataWithCert_def size_query_def go_index_nonempty Let_def)

lemma decrypt_phase2:
  assumes "decoded \<noteq> []" "raw (size_query env decoded h) \<noteq> 0" "cb (size_query env decoded h) \<noteq> 0"
  shows "decryptDataWithCert env decoded c h =
           (if raw (fill_call env decoded h) = 0
            then Inr (None, Some (CouldNotDecrypt (lastErr (fill_call env decoded h))))
            else (case go_slice (stored (replicate (unat (cb (size_query env decoded h))) 0)
                                  (mem (fill_call env decoded h)))
                         0 (unat (cb (fill_call env decoded h))) of
                    Inl p \<Rightarrow> Inl p
                  | Inr returnedBytes \<Rightarrow> Inr (Some returnedBytes, None)))"
  using assms
  by (simp add: decryptDataWithCert_def size_query_def fill_call_def go_index_nonempty
      go_index_replicate Let_def)


lemma thumbprint_size_zero:
  assumes "raw (hash_size_query env c) \<noteq> 0" "cb (hash_size_query env c) = 0"
  shows "getCertificateThumbprint env c = Inr (None, None)"
  using assms by (simp add: getCertificateThumbprint_def hash_size_query_def Let_def)

text \<open>
  C2. When the size query of the decryption fails (the call was made, so the ciphertext
  is not empty) with the error number 2148086027, the ASN.1 bad tag, the result is
  \<open>ErrInvalidProtectedSettingsData\<close>; with any other error number it is the generic
  "could not decrypt" error carrying that number; and a failure of the second call,
  which fills the buffer, is the generic error whatever its number.
\<close>

theorem decrypt_error_mapping:
  "decoded \<noteq> [] \<Longrightarrow>
     (raw (size_query env decoded h) = 0 \<and> lastErr (size_query env decoded h) = 2148086027
        \<longrightarrow> decryptDataWithCert env decoded c h = Inr (None, Some ErrInvalidProtectedSettingsData)) \<and>
     (raw (size_query env decoded h) = 0 \<and> lastErr (size_query env decoded h) \<noteq> 2148086027
        \<longrightarrow> decryptDataWithCert env decoded c h =
              Inr (None, Some (CouldNotDecrypt (lastErr (size_query env decoded h))))) \<and>
     (raw (size_query env decoded h) \<noteq> 0 \<and> cb (size_query env decoded h) \<noteq> 0 \<and>
      raw (fill_call env decoded h) = 0
        \<longrightarrow> decryptDataWithCert env decoded c h =
              Inr (None, Some (CouldNotDecrypt (lastErr (fill_call env decoded h)))))"
  by (simp add: decrypt_phase1_failed decrypt_phase2 crypteEAsn1BadTag_def)

theorem decrypt_error_mapping_witness:
  "decryptDataWithCert example_env [0x31] None 0x1000 =
     Inr (None, Some ErrInvalidProtectedSettingsData) \<and>
   decryptDataWithCert example_env [0x32] None 0x1000 = Inr (None, Some (CouldNotDecrypt 5)) \<and>
   decryptDataWithCert example_env [0x33] None 0x1000 =
     Inr (None, Some (CouldNotDecrypt 2148086027))"
  using decrypt_error_mapping [of "[0x31]" example_env "0x1000" None]
        decrypt_error_mapping [of "[0x32]" example_env "0x1000" None]
        decrypt_error_mapping [of "[0x33]" example_env "0x1000" None]
  by (simp add: size_query_def fill_call_def example_env_def example_decrypt_def)

text \<open>
  C6. In the thumbprint query and in the decryption alike, a size query that succeeds
  and reports the size zero makes the function return the nil slice and the nil error.
\<close>

theorem zero_size_is_empty_result:
  "(raw (hash_size_query env c) \<noteq> 0 \<and> cb (hash_size_query env c) = 0
      \<longrightarrow> getCertificateThumbprint env c = Inr (None, None)) \<and>
   (decoded \<noteq> [] \<and> raw (size_query env decoded h) \<noteq> 0 \<and> cb (size_query env decoded h) = 0
      \<longrightarrow> decryptDataWithCert env decoded c h = Inr (None, None))"
  by (simp add: thumbprint_size_zero decrypt_size_zero)

theorem zero_size_is_empty_result_witness:
  "getCertificateThumbprint example_env (Some 3) = Inr (None, None) \<and>
   decryptDataWithCert example_env [0x35] (Some 3) 0x1000 = Inr (None, None)"
  using zero_size_is_empty_result [of example_env "Some 3" "[0x35]" "0x1000"]
  by (simp add: hash_size_query_def size_query_def example_env_def example_decrypt_def
      example_property_def certHashPropID_def)

text \<open>
  C9. The result of \<open>decryptDataWithCert\<close> does not depend on its certificate argument:
  any two certificate entries, nil included, give the same outcome for the same
  ciphertext and store handle.
\<close>

theorem decrypt_ignores_cert:
  "decryptDataWithCert env decoded c1 h = decryptDataWithCert env decoded c2 h"
  by (simp add: decryptDataWithCert_def)

section \<open>Opening and closing the store\<close>

lemma example_open:
  "CertOpenStore example_env CERT_STORE_PROV_SYSTEM 0 0 CERT_SYSTEM_STORE_LOCAL_MACHINE ''MY'' =
     (0x1000, None)"
  by (simp add: example_env_def)

lemma DecryptProtectedSettings_opened:
  "CertOpenStore env CERT_STORE_PROV_SYSTEM 0 0 CERT_SYSTEM_STORE_LOCAL_MACHINE ''MY'' = (h, None)
     \<Longrightarrow> h \<noteq> 0
     \<Longrightarrow> DecryptProtectedSettings env configFolder thumbprint decoded =
           map_option (\<lambda>r. (r, [CertCloseStore h 0])) (after_open env h thumbprint decoded)"
  by (simp add: DecryptProtectedSettings_def)

lemma after_open_unfold:
  "after_open env h thumbprint decoded =
     (case find_certificate env h (thumbprint_bytes thumbprint) vars0 of
        None \<Rightarrow> None
      | Some (Inl p) \<Rightarrow> Some (Inl p)
      | Some (Inr (Inl e)) \<Rightarrow> Some (Inr (None, Some e))
      | Some (Inr (Inr vs)) \<Rightarrow>
          if \<not> found vs then Some (Inr (None, Some ErrCertWithThumbprintNotFound))
          else
            (case decryptDataWithCert env decoded (cert vs) h of
               Inl p \<Rightarrow> Some (Inl p)
             | Inr (decryptedBytes, Some e) \<Rightarrow> Some (Inr (None, Some e))
             | Inr (decryptedBytes, None) \<Rightarrow>
                 (case json_Unmarshal env decryptedBytes of
                    (v, e) \<Rightarrow> Some (Inr (v, map_option UnmarshalError e)))))"
  by (simp add: after_open_def thumbprintStringToHex_bytes)

text \<open>
  C3. When opening the store returns an error, the function returns the "cannot open
  certificate store" error made from it; when it returns no error and the null handle,
  the function returns \<open>ErrMustRunAsAdmin\<close>; the two errors are different values.
\<close>

theorem open_store_errors:
  "(CertOpenStore env CERT_STORE_PROV_SYSTEM 0 0 CERT_SYSTEM_STORE_LOCAL_MACHINE ''MY'' = (h, Some e)
      \<longrightarrow> DecryptProtectedSettings env configFolder thumbprint decoded =
            Some (Inr (None, Some (CannotOpenStore e)), [])) \<and>
   (CertOpenStore env CERT_STORE_PROV_SYSTEM 0 0 CERT_SYSTEM_STORE_LOCAL_MACHINE ''MY'' = (0, None)
      \<longrightarrow> DecryptProtectedSettings env configFolder thumbprint decoded =
            Some (Inr (None, Some ErrMustRunAsAdmin), [])) \<and>
   (CannotOpenStore e :: 'j error) \<noteq> ErrMustRunAsAdmin"
  by (simp add: DecryptProtectedSettings_def)

theorem open_store_errors_witness:
  "DecryptProtectedSettings
       (example_env\<lparr>CertOpenStore := \<lambda>prov enc hprov flags name. (0, Some (Errno 5))\<rparr>)
       [] (str ''AB12'') [0x30] = Some (Inr (None, Some (CannotOpenStore (Errno 5))), []) \<and>
   DecryptProtectedSettings
       (example_env\<lparr>CertOpenStore := \<lambda>prov enc hprov flags name. (0, None)\<rparr>)
       [] (str ''AB12'') [0x30] = Some (Inr (None, Some ErrMustRunAsAdmin), [])"
  using open_store_errors
          [of "example_env\<lparr>CertOpenStore := \<lambda>prov enc hprov flags name. (0, Some (Errno 5))\<rparr>"
              0 "Errno 5" "[]" "str ''AB12''" "[0x30]"]
        open_store_errors
          [of "example_env\<lparr>CertOpenStore := \<lambda>prov enc hprov flags name. (0, None)\<rparr>"
              0 "Errno 5" "[]" "str ''AB12''" "[0x30]"]
  by simp

text \<open>
  C8. Once the store has been opened with a handle that is not null, every way the
  function returns (with the settings, with an error of any stage, or by a panic)
  has closed that handle, and has closed it exactly once.
\<close>

theorem store_closed_once:
  "CertOpenStore env CERT_STORE_PROV_SYSTEM 0 0 CERT_SYSTEM_STORE_LOCAL_MACHINE ''MY'' = (h, None)
     \<Longrightarrow> h \<noteq> 0
     \<Longrightarrow> DecryptProtectedSettings env configFolder thumbprint decoded = Some (res, closed)
     \<Longrightarrow> closed = [CertCloseStore h 0] \<and> count_list closed (CertCloseStore h 0) = 1"
  by (auto simp: DecryptProtectedSettings_def)

theorem store_closed_once_witness:
  "DecryptProtectedSettings example_env [] (str ''AB12'') [0x30] =
     Some (Inr (Some [], None), [CertCloseStore 0x1000 0]) \<and>
   DecryptProtectedSettings example_env [] (str ''ab13'') [0x30] =
     Some (Inr (None, Some ErrCertWithThumbprintNotFound), [CertCloseStore 0x1000 0]) \<and>
   DecryptProtectedSettings example_env [] (str ''AB12'') [0x31] =
     Some (Inr (None, Some ErrInvalidProtectedSettingsData), [CertCloseStore 0x1000 0]) \<and>
   DecryptProtectedSettings example_env [] (str ''AB12'') [0x34] =
     Some (Inr (None, Some (UnmarshalError ())), [CertCloseStore 0x1000 0]) \<and>
   count_list [CertCloseStore 0x1000 0] (CertCloseStore 0x1000 0) = 1"
proof -
  have nz: "(0x1000 :: uintptr) \<noteq> 0" by simp
  have r1: "DecryptProtectedSettings example_env [] (str ''AB12'') [0x30] =
     Some (Inr (Some [], None), [CertCloseStore 0x1000 0])" by code_simp
  have r2: "DecryptProtectedSettings example_env [] (str ''ab13'') [0x30] =
     Some (Inr (None, Some ErrCertWithThumbprintNotFound), [CertCloseStore 0x1000 0])" by code_simp
  have r3: "DecryptProtectedSettings example_env [] (str ''AB12'') [0x31] =
     Some (Inr (None, Some ErrInvalidProtectedSettingsData), [CertCloseStore 0x1000 0])" by code_simp
  have r4: "DecryptProtectedSettings example_env [] (str ''AB12'') [0x34] =
     Some (Inr (None, Some (UnmarshalError ())), [CertCloseStore 0x1000 0])" by code_simp
  show ?thesis
    using store_closed_once [OF example_open nz r1] store_closed_once [OF example_open nz r2]
      store_closed_once [OF example_open nz r3] store_closed_once [OF example_open nz r4]
      r1 r2 r3 r4
    by simp
qed

section \<open>The enumeration\<close>

lemma bytes_Compare_eq: "bytes_Compare a b = 0 \<longleftrightarrow> a = b"
  by (induction a b rule: bytes_Compare.induct) auto

lemma find_certificate_not_found:
  "CertEnumCertificatesInStore env h (prevContext vs) = (x, Some (Errno crypteENotFound))
     \<Longrightarrow> find_certificate env h t vs = Some (Inr (Inr vs))"
  by (subst find_certificate.simps) simp

lemma find_certificate_nil:
  "CertEnumCertificatesInStore env h (prevContext vs) = (None, None)
     \<Longrightarrow> find_certificate env h t vs = Some (Inr (Inr vs))"
  by (subst find_certificate.simps) simp

lemma find_certificate_error:
  "CertEnumCertificatesInStore env h (prevContext vs) = (x, Some e) \<Longrightarrow> e \<noteq> Errno crypteENotFound
     \<Longrightarrow> find_certificate env h t vs = Some (Inr (Inl (CouldNotEnumerate e)))"
  by (subst find_certificate.simps) (simp split: syserr.splits)

lemma find_certificate_skip:
  "CertEnumCertificatesInStore env h (prevContext vs) = (Some c, None) \<Longrightarrow> entry_skipped env t c
     \<Longrightarrow> find_certificate env h t vs = find_certificate env h t (vs\<lparr>prevContext := Some c\<rparr>)"
  by (subst find_certificate.simps) (auto simp: entry_skipped_def split: sum.splits)

lemma find_certificate_match:
  "CertEnumCertificatesInStore env h (prevContext vs) = (Some c, None) \<Longrightarrow> entry_matches env t c
     \<Longrightarrow> find_certificate env h t vs = Some (Inr (Inr (vs\<lparr>found := True\<rparr>)))"
  by (subst find_certificate.simps) (simp add: entry_matches_def bytes_Compare_eq)

lemma find_certificate_walk:
  "skipped env h t (prevContext vs) cs
     \<Longrightarrow> find_certificate env h t vs =
         find_certificate env h t (vs\<lparr>prevContext := cursor (prevContext vs) cs\<rparr>)"
proof (induction cs arbitrary: vs)
  case Nil
  then show ?case by (simp add: cursor_def)
next
  case (Cons c cs)
  then have e: "CertEnumCertificatesInStore env h (prevContext vs) = (Some c, None)"
    and s: "entry_skipped env t c" and r: "skipped env h t (Some c) cs" by simp_all
  have "find_certificate env h t vs = find_certificate env h t (vs\<lparr>prevContext := Some c\<rparr>)"
    using e s by (rule find_certificate_skip)
  also have "\<dots> = find_certificate env h t
                     (vs\<lparr>prevContext := Some c, prevContext := cursor (Some c) cs\<rparr>)"
    using Cons.IH [of "vs\<lparr>prevContext := Some c\<rparr>"] r by simp
  also have "cursor (Some c) cs = cursor (prevContext vs) (c # cs)"
    by (simp add: cursor_def)
  finally show ?case by simp
qed

lemma find_certificate_first_match:
  assumes "skipped env h t None cs"
    and "CertEnumCertificatesInStore env h (cursor None cs) = (Some c, None)"
    and "entry_matches env t c"
  shows "find_certificate env h t vars0 =
           Some (Inr (Inr \<lparr>cert = None, prevContext = cursor None cs, found = True\<rparr>))"
proof -
  let ?vs = "(vars0 :: 'a vars)\<lparr>prevContext := cursor None cs\<rparr>"
  have "find_certificate env h t vars0 = find_certificate env h t ?vs"
    using find_certificate_walk [of env h t vars0 cs] assms(1) by (simp add: vars0_def)
  also have "\<dots> = Some (Inr (Inr (?vs\<lparr>found := True\<rparr>)))"
    using assms(2,3) by (intro find_certificate_match [of env h ?vs c]) simp_all
  finally show ?thesis by (simp add: vars0_def)
qed

text \<open>
  C5. After any entries that the loop has skipped, the error code 0x80092004 of the
  enumeration, and a nil entry without an error, end the loop: the function returns the
  "certificate not found" error and not an enumeration error. Any other error of the
  enumeration is returned as the "could not enumerate" error. With no entry before the
  end (an empty store) the function returns, with the "certificate not found" error.
\<close>

theorem enumeration_end:
  "CertOpenStore env CERT_STORE_PROV_SYSTEM 0 0 CERT_SYSTEM_STORE_LOCAL_MACHINE ''MY'' = (h, None)
     \<Longrightarrow> h \<noteq> 0
     \<Longrightarrow> skipped env h (thumbprint_bytes thumbprint) None cs
     \<Longrightarrow> (CertEnumCertificatesInStore env h (cursor None cs) = (x, Some (Errno 0x80092004)) \<or>
          CertEnumCertificatesInStore env h (cursor None cs) = (None, None)
            \<longrightarrow> DecryptProtectedSettings env configFolder thumbprint decoded =
                  Some (Inr (None, Some ErrCertWithThumbprintNotFound), [CertCloseStore h 0])) \<and>
         (CertEnumCertificatesInStore env h (cursor None cs) = (x, Some e) \<and> e \<noteq> Errno 0x80092004
            \<longrightarrow> DecryptProtectedSettings env configFolder thumbprint decoded =
                  Some (Inr (None, Some (CouldNotEnumerate e)), [CertCloseStore h 0]))"
proof -
  assume op: "CertOpenStore env CERT_STORE_PROV_SYSTEM 0 0 CERT_SYSTEM_STORE_LOCAL_MACHINE ''MY'' =
                (h, None)"
    and h: "h \<noteq> 0" and sk: "skipped env h (thumbprint_bytes thumbprint) None cs"
  let ?t = "thumbprint_bytes thumbprint"
  let ?vs = "(vars0 :: 'a vars)\<lparr>prevContext := cursor None cs\<rparr>"
  have w: "find_certificate env h ?t vars0 = find_certificate env h ?t ?vs"
    using find_certificate_walk [of env h ?t vars0 cs] sk by (simp add: vars0_def)
  have nf: "\<not> found ?vs" by (simp add: vars0_def)
  show ?thesis
  proof (intro conjI impI)
    assume "CertEnumCertificatesInStore env h (cursor None cs) = (x, Some (Errno 0x80092004)) \<or>
          CertEnumCertificatesInStore env h (cursor None cs) = (None, None)"
    then have "find_certificate env h ?t ?vs = Some (Inr (Inr ?vs))"
    proof
      assume "CertEnumCertificatesInStore env h (cursor None cs) = (x, Some (Errno 0x80092004))"
      then show ?thesis
        by (intro find_certificate_not_found [of env h ?vs x]) (simp add: crypteENotFound_def)
    next
      assume "CertEnumCertificatesInStore env h (cursor None cs) = (None, None)"
      then show ?thesis by (intro find_certificate_nil) simp
    qed
    with w have "find_certificate env h ?t vars0 = Some (Inr (Inr ?vs))" by simp
    then have "after_open env h thumbprint decoded =
                 Some (Inr (None, Some ErrCertWithThumbprintNotFound))"
      using nf by (simp add: after_open_unfold)
    then show "DecryptProtectedSettings env configFolder thumbprint decoded =
                  Some (Inr (None, Some ErrCertWithThumbprintNotFound), [CertCloseStore h 0])"
      by (simp add: DecryptProtectedSettings_opened [OF op h])
  next
    assume a: "CertEnumCertificatesInStore env h (cursor None cs) = (x, Some e) \<and>
               e \<noteq> Errno 0x80092004"
    then have "find_certificate env h ?t ?vs = Some (Inr (Inl (CouldNotEnumerate e)))"
      by (intro find_certificate_error [of env h ?vs x]) (simp_all add: crypteENotFound_def)
    with w have "find_certificate env h ?t vars0 = Some (Inr (Inl (CouldNotEnumerate e)))" by simp
    then have "after_open env h thumbprint decoded = Some (Inr (None, Some (CouldNotEnumerate e)))"
      by (simp add: after_open_unfold)
    then show "DecryptProtectedSettings env configFolder thumbprint decoded =
                  Some (Inr (None, Some (CouldNotEnumerate e)), [CertCloseStore h 0])"
      by (simp add: DecryptProtectedSettings_opened [OF op h])
  qed
qed

theorem enumeration_end_witness:
  "DecryptProtectedSettings empty_store_env [] (str ''AB12'') [0x30] =
     Some (Inr (None, Some ErrCertWithThumbprintNotFound), [CertCloseStore 0x1000 0]) \<and>
   DecryptProtectedSettings nil_store_env [] (str ''AB12'') [0x30] =
     Some (Inr (None, Some ErrCertWithThumbprintNotFound), [CertCloseStore 0x1000 0]) \<and>
   DecryptProtectedSettings example_env [] (str ''ab13'') [0x30] =
     Some (Inr (None, Some ErrCertWithThumbprintNotFound), [CertCloseStore 0x1000 0]) \<and>
   DecryptProtectedSettings failing_store_env [] (str ''ab13'') [0x30] =
     Some (Inr (None, Some (CouldNotEnumerate (Errno 5))), [CertCloseStore 0x1000 0])"
proof -
  have o1: "CertOpenStore empty_store_env CERT_STORE_PROV_SYSTEM 0 0
              CERT_SYSTEM_STORE_LOCAL_MACHINE ''MY'' = (0x1000, None)"
    and o2: "CertOpenStore nil_store_env CERT_STORE_PROV_SYSTEM 0 0
              CERT_SYSTEM_STORE_LOCAL_MACHINE ''MY'' = (0x1000, None)"
    and o3: "CertOpenStore failing_store_env CERT_STORE_PROV_SYSTEM 0 0
              CERT_SYSTEM_STORE_LOCAL_MACHINE ''MY'' = (0x1000, None)"
    by (simp_all add: empty_store_env_def nil_store_env_def failing_store_env_def example_env_def)
  have nz: "(0x1000 :: uintptr) \<noteq> 0" by simp
  have s1: "skipped empty_store_env 0x1000 (thumbprint_bytes (str ''AB12'')) None []"
    and s2: "skipped nil_store_env 0x1000 (thumbprint_bytes (str ''AB12'')) None []" by simp_all
  have s3: "skipped example_env 0x1000 (thumbprint_bytes (str ''ab13'')) None [1, 2]" by code_simp
  have s4: "skipped failing_store_env 0x1000 (thumbprint_bytes (str ''ab13'')) None [1]"
    by code_simp
  have e1: "CertEnumCertificatesInStore empty_store_env 0x1000 (cursor None []) =
              (None, Some (Errno 0x80092004))"
    by (simp add: empty_store_env_def)
  have e2: "CertEnumCertificatesInStore nil_store_env 0x1000 (cursor None []) = (None, None)"
    by (simp add: nil_store_env_def)
  have e3: "CertEnumCertificatesInStore example_env 0x1000 (cursor None [1, 2]) =
              (None, Some (Errno 0x80092004))"
    by (simp add: example_env_def example_enum_def cursor_def)
  have e4: "CertEnumCertificatesInStore failing_store_env 0x1000 (cursor None [1]) =
              (None, Some (Errno 5))"
    by (simp add: failing_store_env_def cursor_def)
  show ?thesis
    using enumeration_end [OF o1 nz s1, where x = None and e = "Errno 5" and configFolder = "[]"
                             and decoded = "[0x30]"]
          enumeration_end [OF o2 nz s2, where x = None and e = "Errno 5" and configFolder = "[]"
                             and decoded = "[0x30]"]
          enumeration_end [OF example_open nz s3, where x = None and e = "Errno 5"
                             and configFolder = "[]" and decoded = "[0x30]"]
          enumeration_end [OF o3 nz s4, where x = None and e = "Errno 5" and configFolder = "[]"
                             and decoded = "[0x30]"]
          e1 e2 e3 e4
    by simp
qed

text \<open>
  C1, at a store that holds the wanted certificate. The target \<open>AB12\<close> decodes to the
  bytes \<open>AB 12\<close>, which is the thumbprint of entry 2 of the example store. The loop stops
  there with \<open>found\<close> set, but the entry was held by the variable \<open>cert\<close> that the loop
  body declares: the variable \<open>cert\<close> of the function is still nil and \<open>prevContext\<close> is
  entry 1, so the decryption is called with the nil certificate.
\<close>

theorem matched_entry_not_passed:
  "thumbprintStringToHex (str ''AB12'') = Inr ([0xAB, 0x12], None :: unit error option) \<and>
   getCertificateThumbprint example_env (Some 2) = Inr (Some [0xAB, 0x12], None) \<and>
   find_certificate example_env 0x1000 [0xAB, 0x12] vars0 =
     Some (Inr (Inr \<lparr>cert = None, prevContext = Some 1, found = True\<rparr>)) \<and>
   after_open example_env 0x1000 (str ''AB12'') [0x30] =
     (case decryptDataWithCert example_env [0x30] None 0x1000 of
        Inl p \<Rightarrow> Some (Inl p)
      | Inr (decryptedBytes, Some e) \<Rightarrow> Some (Inr (None, Some e))
      | Inr (decryptedBytes, None) \<Rightarrow>
          (case json_Unmarshal example_env decryptedBytes of
             (v, e) \<Rightarrow> Some (Inr (v, map_option UnmarshalError e))))"
proof -
  have t: "thumbprint_bytes (str ''AB12'') = [0xAB, 0x12]" by code_simp
  have m: "getCertificateThumbprint example_env (Some 2) = Inr (Some [0xAB, 0x12], None)"
    by code_simp
  have s: "skipped example_env 0x1000 [0xAB, 0x12] None [1]" by code_simp
  have e: "CertEnumCertificatesInStore example_env 0x1000 (cursor None [1]) = (Some 2, None)"
    by (simp add: example_env_def example_enum_def cursor_def)
  have f: "find_certificate example_env 0x1000 [0xAB, 0x12] vars0 =
     Some (Inr (Inr \<lparr>cert = None, prevContext = Some 1, found = True\<rparr>))"
    using find_certificate_first_match [OF s e] m by (simp add: entry_matches_def cursor_def)
  show ?thesis
    using t m f thumbprintStringToHex_bytes [of "str ''AB12''"]
    by (simp add: after_open_unfold)
qed




end
